theory Spec2Isabelle
  imports Main
begin

section \<open>Data model of the notification mailer (synapse/push/mailer.py)\<close>

text \<open>
  A Python \<open>str\<close> is modelled as the sequence of its Unicode code points, so that
  \<open>ord\<close> is the identity on an element and \<open>len\<close> counts code points.
  ASCII literals of the source are written through \<open>str\<close>.
\<close>

type_synonym pystr = "nat list"

definition str :: "string \<Rightarrow> pystr" where
  "str s = map of_char s"

text \<open>Exceptions are values: every raise of the source is an \<open>Inl\<close> of the model.\<close>

datatype error = KeyError | IndexError | StoreError | OtherError

definition bind_err :: "error + 'a \<Rightarrow> ('a \<Rightarrow> error + 'b) \<Rightarrow> error + 'b" where
  "bind_err m f = (case m of Inl e \<Rightarrow> Inl e | Inr x \<Rightarrow> f x)"

definition subscript :: "('k \<rightharpoonup> 'v) \<Rightarrow> 'k \<Rightarrow> error + 'v" where
  \<comment> \<open>\<open>d[k]\<close> on a dict: KeyError when the key is missing\<close>
  "subscript d k = (case d k of None \<Rightarrow> Inl KeyError | Some v \<Rightarrow> Inr v)"

definition truthy :: "pystr option \<Rightarrow> bool" where
  \<comment> \<open>Python truth value of a string or None\<close>
  "truthy s = (case s of None \<Rightarrow> False | Some v \<Rightarrow> v \<noteq> [])"

record event =
  ev_type :: pystr
  ev_sender :: pystr
  ev_event_id :: pystr
  ev_origin_server_ts :: int
  ev_content :: "pystr \<rightharpoonup> pystr"

record push_action =
  pa_room_id :: pystr
  pa_event_id :: pystr
  pa_received_ts :: "int option"

type_synonym state_ids = "(pystr \<times> pystr) \<rightharpoonup> pystr"

record events_around =
  events_before :: "event list"
  events_after :: "event list"

record message_vars =
  mv_msgtype :: "pystr option"
  mv_is_historical :: bool
  mv_id :: pystr
  mv_ts :: int
  mv_sender_name :: "pystr option"
  mv_sender_avatar_url :: "pystr option"
  mv_sender_hash :: int
  mv_format :: "pystr option option"
  mv_body_text_html :: "pystr option"
  mv_image_url :: "pystr option"
  mv_body_text_plain :: "pystr option"

record notif_vars =
  nv_link :: pystr
  nv_ts :: "int option"
  nv_messages :: "message_vars list"

record room_vars =
  rv_title :: "pystr option"
  rv_hash :: int
  rv_notifs :: "notif_vars list"
  rv_invite :: bool
  rv_link :: pystr

text \<open>
  The subject line is \<open>template % fields\<close>, the templates being configuration
  (\<open>hs.config.email_subjects\<close>). A subject is kept as the template chosen together
  with the fields substituted into it.
\<close>

datatype subject =
    Invite_from_person "pystr option" pystr
  | Invite_from_person_to_room "pystr option" pystr pystr
  | Message_from_person_in_room pystr pystr pystr
  | Message_from_person pystr pystr
  | Messages_in_room pystr pystr
  | Messages_from_person pystr pystr
  | Messages_in_room_and_others pystr pystr
  | Messages_from_person_and_others pystr pystr

record reason =
  reason_room_id :: pystr
  reason_room_name :: "pystr option"

record template_vars =
  tv_user_display_name :: pystr
  tv_unsubscribe_link :: pystr
  tv_summary_text :: "subject option"
  tv_app_name :: pystr
  tv_rooms :: "room_vars list"
  tv_reason :: reason

record email =
  email_address :: pystr
  email_subject :: "subject option"
  email_template_vars :: template_vars

text \<open>
  The homeserver handle \<open>hs\<close> of the \<open>Mailer\<close>: the datastore, the visibility
  filter, the naming helpers of \<open>synapse.push.presentable_names\<close>, the sanitizer and
  the configuration. They are collaborators of the mailer and are parameters here.
\<close>

record hs =
  store_get_event :: "pystr \<Rightarrow> error + event"
  store_get_events :: "pystr list \<Rightarrow> error + (pystr \<rightharpoonup> event)"
  store_get_current_state_ids :: "pystr \<Rightarrow> error + state_ids"
  store_get_events_around :: "pystr \<Rightarrow> pystr \<Rightarrow> nat \<Rightarrow> nat \<Rightarrow> error + events_around"
  store_get_profile_displayname :: "pystr \<Rightarrow> error + pystr option"
  filter_events_for_client :: "pystr \<Rightarrow> event list \<Rightarrow> error + event list"
  calculate_room_name :: "state_ids \<Rightarrow> pystr \<Rightarrow> bool \<Rightarrow> error + pystr option"
  name_from_member_event :: "event \<Rightarrow> pystr option"
  descriptor_from_member_events :: "event list \<Rightarrow> pystr"
  userid_localpart :: "pystr \<Rightarrow> error + pystr"
  generate_delete_pusher_token :: "pystr \<Rightarrow> pystr"
  urlencode :: "(pystr \<times> pystr) list \<Rightarrow> pystr"
  bleach_clean_linkify :: "pystr \<Rightarrow> pystr list \<Rightarrow> (pystr \<times> pystr list) list \<Rightarrow> bool \<Rightarrow> pystr"
  email_riot_base_url :: "pystr option"
  public_baseurl :: pystr
  app_name :: pystr

definition CONTEXT_BEFORE :: nat where "CONTEXT_BEFORE = 1"
definition CONTEXT_AFTER :: nat where "CONTEXT_AFTER = 1"

definition ALLOWED_TAGS :: "pystr list" where
  "ALLOWED_TAGS = map str
     [''font'', ''del'', ''h3'', ''h4'', ''h5'', ''h6'', ''blockquote'', ''p'', ''a'',
      ''ul'', ''ol'', ''nl'', ''li'', ''b'', ''i'', ''u'', ''strong'', ''em'', ''strike'',
      ''code'', ''hr'', ''br'', ''div'', ''table'', ''thead'', ''caption'', ''tbody'',
      ''tr'', ''th'', ''td'', ''pre'']"

definition ALLOWED_ATTRS :: "(pystr \<times> pystr list) list" where
  "ALLOWED_ATTRS =
     [(str ''font'', [str ''color'']),
      (str ''a'', [str ''href'', str ''name'', str ''target'']),
      (str ''img'', [str ''src''])]"

definition m_room_member :: pystr where "m_room_member = str ''m.room.member''"
definition m_room_message :: pystr where "m_room_message = str ''m.room.message''"

section \<open>Module-level helpers\<close>

definition safe_markup :: "hs \<Rightarrow> pystr \<Rightarrow> pystr" where
  "safe_markup h raw_html = bleach_clean_linkify h raw_html ALLOWED_TAGS ALLOWED_ATTRS True"

definition safe_text :: "hs \<Rightarrow> pystr \<Rightarrow> pystr" where
  "safe_text h raw_text = bleach_clean_linkify h raw_text [] [] False"

text \<open>\<open>deduped_ordered_list\<close>: the loop over \<open>it\<close> with its \<open>seen\<close> set and \<open>ret\<close> list.\<close>

fun deduped_loop :: "'a list \<Rightarrow> 'a set \<Rightarrow> 'a list \<Rightarrow> 'a list" where
  "deduped_loop [] seen ret = ret"
| "deduped_loop (item # it) seen ret =
     (if item \<notin> seen then deduped_loop it (insert item seen) (ret @ [item])
      else deduped_loop it seen ret)"

definition deduped_ordered_list :: "'a list \<Rightarrow> 'a list" where
  "deduped_ordered_list it = deduped_loop it {} []"

text \<open>\<open>string_ordinal_total\<close>: the loop adding \<open>ord(c)\<close> to \<open>tot\<close>.\<close>

fun ordinal_loop :: "pystr \<Rightarrow> int \<Rightarrow> int" where
  "ordinal_loop [] tot = tot"
| "ordinal_loop (c # s) tot = ordinal_loop s (tot + int c)"

definition string_ordinal_total :: "pystr \<Rightarrow> int" where
  "string_ordinal_total s = ordinal_loop s 0"

section \<open>Links\<close>

definition make_room_link :: "hs \<Rightarrow> pystr \<Rightarrow> pystr" where
  "make_room_link h room_id =
     (let base_url =
        (if truthy (email_riot_base_url h)
         then the (email_riot_base_url h) @ str ''/#/room''
         else if app_name h = str ''Vector'' then str ''https://vector.im/beta/#/room''
         else str ''https://matrix.to/#'')
      in base_url @ str ''/'' @ room_id)"

definition make_notif_link :: "hs \<Rightarrow> push_action \<Rightarrow> pystr" where
  "make_notif_link h notif =
     (if truthy (email_riot_base_url h)
      then the (email_riot_base_url h) @ str ''/#/room/'' @ pa_room_id notif
             @ str ''/'' @ pa_event_id notif
      else if app_name h = str ''Vector''
      then str ''https://vector.im/beta/#/room/'' @ pa_room_id notif
             @ str ''/'' @ pa_event_id notif
      else str ''https://matrix.to/#/'' @ pa_room_id notif @ str ''/'' @ pa_event_id notif)"

definition make_unsubscribe_link :: "hs \<Rightarrow> pystr \<Rightarrow> pystr \<Rightarrow> pystr \<Rightarrow> pystr" where
  "make_unsubscribe_link h user_id app_id email_addr =
     (let params =
        [(str ''access_token'', generate_delete_pusher_token h user_id),
         (str ''app_id'', app_id),
         (str ''pushkey'', email_addr)]
      in public_baseurl h @ str ''_matrix/client/unstable/pushers/remove?'' @ urlencode h params)"

section \<open>Message and notification view models\<close>

definition add_text_message_vars :: "hs \<Rightarrow> message_vars \<Rightarrow> event \<Rightarrow> message_vars" where
  "add_text_message_vars h messagevars ev =
     (let msgformat = ev_content ev (str ''format'');
          messagevars = messagevars\<lparr>mv_format := Some msgformat\<rparr>;
          formatted_body = ev_content ev (str ''formatted_body'');
          body = ev_content ev (str ''body'')
      in if msgformat = Some (str ''org.matrix.custom.html'') \<and> truthy formatted_body
         then messagevars\<lparr>mv_body_text_html := Some (safe_markup h (the formatted_body))\<rparr>
         else if truthy body
         then messagevars\<lparr>mv_body_text_html := Some (safe_text h (the body))\<rparr>
         else messagevars)"

definition add_image_message_vars :: "message_vars \<Rightarrow> event \<Rightarrow> error + message_vars" where
  "add_image_message_vars messagevars ev =
     bind_err (subscript (ev_content ev) (str ''url''))
       (\<lambda>url. Inr (messagevars\<lparr>mv_image_url := Some url\<rparr>))"

text \<open>\<open>get_message_vars\<close> returns \<open>None\<close> for an event that is not a message.\<close>

definition get_message_vars ::
  "hs \<Rightarrow> push_action \<Rightarrow> event \<Rightarrow> state_ids \<Rightarrow> error + message_vars option" where
  "get_message_vars h notif ev room_state_ids =
     (if ev_type ev \<noteq> m_room_message then Inr None
      else
        bind_err (subscript room_state_ids (m_room_member, ev_sender ev))
          (\<lambda>sender_state_event_id.
        bind_err (store_get_event h sender_state_event_id)
          (\<lambda>sender_state_event.
        let sender_name = name_from_member_event h sender_state_event;
            sender_avatar_url = ev_content sender_state_event (str ''avatar_url'');
            sender_hash = string_ordinal_total (ev_sender ev);
            msgtype = ev_content ev (str ''msgtype'');
            ret = \<lparr>mv_msgtype = msgtype,
                   mv_is_historical = (ev_event_id ev \<noteq> pa_event_id notif),
                   mv_id = ev_event_id ev,
                   mv_ts = ev_origin_server_ts ev,
                   mv_sender_name = sender_name,
                   mv_sender_avatar_url = sender_avatar_url,
                   mv_sender_hash = sender_hash,
                   mv_format = None,
                   mv_body_text_html = None,
                   mv_image_url = None,
                   mv_body_text_plain = None\<rparr>
        in bind_err
             (if msgtype = Some (str ''m.text'') then Inr (add_text_message_vars h ret ev)
              else if msgtype = Some (str ''m.image'') then add_image_message_vars ret ev
              else Inr ret)
             (\<lambda>ret.
                Inr (Some (case ev_content ev (str ''body'') of
                             None \<Rightarrow> ret
                           | Some body \<Rightarrow> ret\<lparr>mv_body_text_plain := Some body\<rparr>))))))"

text \<open>The loop of \<open>get_notif_vars\<close> over \<open>the_events\<close>, appending to \<open>ret["messages"]\<close>.\<close>

fun notif_messages_loop ::
  "hs \<Rightarrow> push_action \<Rightarrow> state_ids \<Rightarrow> event list \<Rightarrow> message_vars list
     \<Rightarrow> error + message_vars list" where
  "notif_messages_loop h notif room_state_ids [] messages = Inr messages"
| "notif_messages_loop h notif room_state_ids (ev # the_events) messages =
     bind_err (get_message_vars h notif ev room_state_ids)
       (\<lambda>messagevars.
          notif_messages_loop h notif room_state_ids the_events
            (case messagevars of None \<Rightarrow> messages | Some mv \<Rightarrow> messages @ [mv]))"

definition get_notif_vars ::
  "hs \<Rightarrow> push_action \<Rightarrow> pystr \<Rightarrow> event \<Rightarrow> state_ids \<Rightarrow> error + notif_vars" where
  "get_notif_vars h notif user_id notif_event room_state_ids =
     bind_err (store_get_events_around h (pa_room_id notif) (pa_event_id notif)
                 CONTEXT_BEFORE CONTEXT_AFTER)
       (\<lambda>results.
     bind_err (filter_events_for_client h user_id (events_before results))
       (\<lambda>the_events.
     bind_err (notif_messages_loop h notif room_state_ids (the_events @ [notif_event]) [])
       (\<lambda>messages.
          Inr \<lparr>nv_link = make_notif_link h notif,
               nv_ts = pa_received_ts notif,
               nv_messages = messages\<rparr>)))"

section \<open>Merging overlapping notifications\<close>

text \<open>
  \<open>pm[0]["is_historical"] = False\<close>: \<open>pm\<close> is the list of entries of the previous
  run with the id of the incoming message; the first of them is updated in place.
\<close>

fun set_first_not_historical :: "pystr \<Rightarrow> message_vars list \<Rightarrow> message_vars list" where
  "set_first_not_historical i [] = []"
| "set_first_not_historical i (p # prev_messages) =
     (if mv_id p = i then p\<lparr>mv_is_historical := False\<rparr> # prev_messages
      else p # set_first_not_historical i prev_messages)"

text \<open>
  The inner loop \<open>for message in notifvars["messages"]\<close>; the state is the previous
  run \<open>prev_messages\<close> (mutated in place by the source) and the flag \<open>merge\<close>.
\<close>

fun merge_loop ::
  "message_vars list \<Rightarrow> message_vars list \<Rightarrow> bool \<Rightarrow> message_vars list \<times> bool" where
  "merge_loop prev_messages [] merge = (prev_messages, merge)"
| "merge_loop prev_messages (message # messages) merge =
     (let pm = filter (\<lambda>pm. mv_id pm = mv_id message) prev_messages
      in if pm \<noteq> [] then
           merge_loop
             (if \<not> mv_is_historical message
              then set_first_not_historical (mv_id message) prev_messages
              else prev_messages)
             messages True
         else if merge then merge_loop (prev_messages @ [message]) messages merge
         else merge_loop prev_messages messages merge)"

text \<open>
  One turn of the loop over the notifications, after \<open>notifvars\<close> has been built:
  merge into the last run when there is one, and append \<open>notifvars\<close> as a new run
  when nothing was merged. (Every \<open>notifvars\<close> has the key \<open>"messages"\<close>.)
\<close>

definition merge_notif :: "notif_vars list \<Rightarrow> notif_vars \<Rightarrow> notif_vars list" where
  "merge_notif notifs notifvars =
     (if notifs \<noteq> [] then
        (let (prev_messages, merge) =
               merge_loop (nv_messages (last notifs)) (nv_messages notifvars) False;
             notifs = butlast notifs @ [(last notifs)\<lparr>nv_messages := prev_messages\<rparr>]
         in if \<not> merge then notifs @ [notifvars] else notifs)
      else notifs @ [notifvars])"

section \<open>The room view model\<close>

fun room_notifs_loop ::
  "hs \<Rightarrow> pystr \<Rightarrow> (pystr \<rightharpoonup> event) \<Rightarrow> state_ids \<Rightarrow> push_action list \<Rightarrow> notif_vars list
     \<Rightarrow> error + notif_vars list" where
  "room_notifs_loop h user_id notif_events room_state_ids [] room_notifs = Inr room_notifs"
| "room_notifs_loop h user_id notif_events room_state_ids (n # notifs) room_notifs =
     bind_err (subscript notif_events (pa_event_id n))
       (\<lambda>notif_event.
     bind_err (get_notif_vars h n user_id notif_event room_state_ids)
       (\<lambda>notifvars.
          room_notifs_loop h user_id notif_events room_state_ids notifs
            (merge_notif room_notifs notifvars)))"

definition get_room_vars ::
  "hs \<Rightarrow> pystr \<Rightarrow> pystr \<Rightarrow> push_action list \<Rightarrow> (pystr \<rightharpoonup> event) \<Rightarrow> state_ids
     \<Rightarrow> error + room_vars" where
  "get_room_vars h room_id user_id notifs notif_events room_state_ids =
     bind_err (subscript room_state_ids (m_room_member, user_id))
       (\<lambda>my_member_event_id.
     bind_err (store_get_event h my_member_event_id)
       (\<lambda>my_member_event.
     bind_err (subscript (ev_content my_member_event) (str ''membership''))
       (\<lambda>membership.
     let is_invite = (membership = str ''invite'') in
     bind_err (calculate_room_name h room_state_ids user_id True)
       (\<lambda>room_name.
     let room_vars = \<lparr>rv_title = room_name,
                      rv_hash = string_ordinal_total room_id,
                      rv_notifs = [],
                      rv_invite = is_invite,
                      rv_link = make_room_link h room_id\<rparr>
     in if \<not> is_invite then
          bind_err (room_notifs_loop h user_id notif_events room_state_ids notifs [])
            (\<lambda>room_notifs. Inr (room_vars\<lparr>rv_notifs := room_notifs\<rparr>))
        else Inr room_vars))))"

section \<open>The summary line\<close>

text \<open>A list comprehension whose element expression may raise.\<close>

fun map_err :: "('a \<Rightarrow> error + 'b) \<Rightarrow> 'a list \<Rightarrow> error + 'b list" where
  "map_err f [] = Inr []"
| "map_err f (x # xs) =
     bind_err (f x) (\<lambda>y. bind_err (map_err f xs) (\<lambda>ys. Inr (y # ys)))"

text \<open>
  \<open>list({... for n in notifs})\<close>: the distinct senders. The order of a Python set is
  not specified; the model keeps the first occurrences in order. \<open>member_events.values()\<close>
  are the events found for the requested ids.
\<close>

definition sender_ids_of ::
  "(pystr \<rightharpoonup> event) \<Rightarrow> push_action list \<Rightarrow> error + pystr list" where
  "sender_ids_of notif_events notifs =
     bind_err (map_err (\<lambda>n. bind_err (subscript notif_events (pa_event_id n))
                                (\<lambda>ev. Inr (ev_sender ev))) notifs)
       (\<lambda>senders. Inr (deduped_ordered_list senders))"

definition dict_values :: "('k \<rightharpoonup> 'v) \<Rightarrow> 'k list \<Rightarrow> 'v list" where
  "dict_values d ks = List.map_filter d (remdups ks)"

definition senders_descriptor ::
  "hs \<Rightarrow> (pystr \<rightharpoonup> event) \<Rightarrow> state_ids \<Rightarrow> push_action list \<Rightarrow> error + pystr" where
  "senders_descriptor h notif_events room_state notifs =
     bind_err (sender_ids_of notif_events notifs)
       (\<lambda>sender_ids.
     bind_err (map_err (\<lambda>s. subscript room_state (m_room_member, s)) sender_ids)
       (\<lambda>member_event_ids.
     bind_err (store_get_events h member_event_ids)
       (\<lambda>member_events.
          Inr (descriptor_from_member_events h (dict_values member_events member_event_ids)))))"

text \<open>
  \<open>make_summary_text\<close>. A Python function that reaches its end without a
  \<open>return\<close> returns \<open>None\<close>: the result is a \<open>subject option\<close>.
  \<open>notifs_by_room\<close> is a dict in insertion order, kept as an association list.
\<close>

definition make_summary_text ::
  "hs \<Rightarrow> (pystr \<times> push_action list) list \<Rightarrow> (pystr \<rightharpoonup> state_ids) \<Rightarrow> (pystr \<rightharpoonup> event)
     \<Rightarrow> pystr \<Rightarrow> reason \<Rightarrow> error + subject option" where
  "make_summary_text h notifs_by_room room_state_ids notif_events user_id reason =
     (if length notifs_by_room = 1 then
        (let room_id = fst (hd notifs_by_room) in
         bind_err (subscript room_state_ids room_id)
           (\<lambda>room_state.
         bind_err (calculate_room_name h room_state user_id False)
           (\<lambda>room_name.
         bind_err (subscript room_state (m_room_member, user_id))
           (\<lambda>my_member_event_id.
         bind_err (store_get_event h my_member_event_id)
           (\<lambda>my_member_event.
         bind_err (subscript (ev_content my_member_event) (str ''membership''))
           (\<lambda>membership.
         if membership = str ''invite'' then
           bind_err (subscript room_state (m_room_member, ev_sender my_member_event))
             (\<lambda>inviter_member_event_id.
           bind_err (store_get_event h inviter_member_event_id)
             (\<lambda>inviter_member_event.
              let inviter_name = name_from_member_event h inviter_member_event in
              (case room_name of
                 None \<Rightarrow> Inr (Some (Invite_from_person inviter_name (app_name h)))
               | Some room \<Rightarrow>
                   Inr (Some (Invite_from_person_to_room inviter_name room (app_name h))))))
         else
           bind_err (subscript (map_of notifs_by_room) room_id)
             (\<lambda>notifs.
           if length notifs = 1 then
             bind_err (subscript notif_events (pa_event_id (hd notifs)))
               (\<lambda>ev.
             bind_err
               (case room_state (m_room_member, ev_sender ev) of
                  None \<Rightarrow> Inr None
                | Some state_event_id \<Rightarrow>
                    bind_err (store_get_event h state_event_id)
                      (\<lambda>state_event. Inr (name_from_member_event h state_event)))
               (\<lambda>sender_name.
                  (case (sender_name, room_name) of
                     (Some person, Some room) \<Rightarrow>
                       Inr (Some (Message_from_person_in_room person room (app_name h)))
                   | (Some person, None) \<Rightarrow>
                       Inr (Some (Message_from_person person (app_name h)))
                   | (None, _) \<Rightarrow> Inr None)))
           else
             (case room_name of
                Some room \<Rightarrow> Inr (Some (Messages_in_room room (app_name h)))
              | None \<Rightarrow>
                  bind_err (senders_descriptor h notif_events room_state notifs)
                    (\<lambda>person. Inr (Some (Messages_from_person person (app_name h))))))))))))
      else
        (case reason_room_name reason of
           Some room \<Rightarrow> Inr (Some (Messages_in_room_and_others room (app_name h)))
         | None \<Rightarrow>
             (let room_id = reason_room_id reason in
              bind_err (subscript (map_of notifs_by_room) room_id)
                (\<lambda>notifs.
              bind_err (subscript room_state_ids room_id)
                (\<lambda>room_state.
              bind_err (senders_descriptor h notif_events room_state notifs)
                (\<lambda>person.
                   Inr (Some (Messages_from_person_and_others person (app_name h)))))))))"

section \<open>Building and sending the digest\<close>

text \<open>\<open>notifs_by_room.setdefault(pa["room_id"], []).append(pa)\<close>\<close>

fun setdefault_append :: "'k \<Rightarrow> 'v \<Rightarrow> ('k \<times> 'v list) list \<Rightarrow> ('k \<times> 'v list) list" where
  "setdefault_append k v [] = [(k, [v])]"
| "setdefault_append k v ((k', vs) # d) =
     (if k' = k then (k', vs @ [v]) # d else (k', vs) # setdefault_append k v d)"

fun notifs_by_room_loop ::
  "push_action list \<Rightarrow> (pystr \<times> push_action list) list \<Rightarrow> (pystr \<times> push_action list) list" where
  "notifs_by_room_loop [] notifs_by_room = notifs_by_room"
| "notifs_by_room_loop (pa # push_actions) notifs_by_room =
     notifs_by_room_loop push_actions (setdefault_append (pa_room_id pa) pa notifs_by_room)"

text \<open>
  \<open>concurrently_execute(_fetch_room_state, rooms_in_order, 3)\<close>: every room's state is
  fetched and stored under its room id, and the first failure is raised. The model runs
  the fetches one after the other, in the order of the list.
\<close>

fun fetch_room_states ::
  "hs \<Rightarrow> pystr list \<Rightarrow> (pystr \<rightharpoonup> state_ids) \<Rightarrow> error + (pystr \<rightharpoonup> state_ids)" where
  "fetch_room_states h [] state_by_room = Inr state_by_room"
| "fetch_room_states h (room_id # rooms) state_by_room =
     bind_err (store_get_current_state_ids h room_id)
       (\<lambda>room_state. fetch_room_states h rooms (state_by_room(room_id \<mapsto> room_state)))"

text \<open>
  The sort key \<open>-(notifs_by_room[r][-1]["received_ts"] or 0)\<close>, and
  \<open>rooms_in_order.sort(key=...)\<close>: Python computes the key of every element first,
  then sorts stably on the keys.
\<close>

definition room_sort_key :: "(pystr \<times> push_action list) list \<Rightarrow> pystr \<Rightarrow> error + int" where
  "room_sort_key notifs_by_room r =
     bind_err (subscript (map_of notifs_by_room) r)
       (\<lambda>notifs. if notifs = [] then Inl IndexError
                  else Inr (- (case pa_received_ts (last notifs) of None \<Rightarrow> 0 | Some ts \<Rightarrow> ts)))"

definition sort_rooms ::
  "(pystr \<times> push_action list) list \<Rightarrow> pystr list \<Rightarrow> error + pystr list" where
  "sort_rooms notifs_by_room rooms_in_order =
     bind_err (map_err (room_sort_key notifs_by_room) rooms_in_order)
       (\<lambda>keys. Inr (map snd (sort_key fst (zip keys rooms_in_order))))"

text \<open>The room ordering that \<open>send_notification_mail\<close> walks through.\<close>

definition rooms_in_order :: "push_action list \<Rightarrow> error + pystr list" where
  "rooms_in_order push_actions =
     sort_rooms (notifs_by_room_loop push_actions [])
       (deduped_ordered_list (map pa_room_id push_actions))"

definition get_user_display_name :: "hs \<Rightarrow> pystr \<Rightarrow> error + pystr" where
  "get_user_display_name h user_id =
     bind_err (userid_localpart h user_id)
       (\<lambda>localpart.
          case store_get_profile_displayname h localpart of
            Inl StoreError \<Rightarrow> Inr user_id
          | Inl e \<Rightarrow> Inl e
          | Inr None \<Rightarrow> Inr user_id
          | Inr (Some user_display_name) \<Rightarrow> Inr user_display_name)"

text \<open>
  \<open>send_notification_mail\<close>, up to its last statement: the result is the call made to
  \<open>send_email\<close> (address, subject, template variables), or the exception that left
  the function before that call.
\<close>

definition send_notification_mail ::
  "hs \<Rightarrow> pystr \<Rightarrow> pystr \<Rightarrow> pystr \<Rightarrow> push_action list \<Rightarrow> pystr \<Rightarrow> error + email" where
  "send_notification_mail h app_id user_id email_addr push_actions reason_room =
     (let rooms = deduped_ordered_list (map pa_room_id push_actions) in
      bind_err (store_get_events h (map pa_event_id push_actions))
        (\<lambda>notif_events.
      let notifs_by_room = notifs_by_room_loop push_actions [] in
      bind_err (get_user_display_name h user_id)
        (\<lambda>user_display_name.
      bind_err (fetch_room_states h rooms Map.empty)
        (\<lambda>state_by_room.
      bind_err (sort_rooms notifs_by_room rooms)
        (\<lambda>rooms.
      bind_err (map_err (\<lambda>r. bind_err (subscript (map_of notifs_by_room) r)
                                (\<lambda>notifs.
                              bind_err (subscript state_by_room r)
                                (\<lambda>room_state.
                                 get_room_vars h r user_id notifs notif_events room_state)))
                  rooms)
        (\<lambda>room_vars_list.
      bind_err (subscript state_by_room reason_room)
        (\<lambda>reason_state.
      bind_err (calculate_room_name h reason_state user_id True)
        (\<lambda>reason_room_name.
      let reason = \<lparr>reason_room_id = reason_room, reason_room_name = reason_room_name\<rparr> in
      bind_err (make_summary_text h notifs_by_room state_by_room notif_events user_id reason)
        (\<lambda>summary_text.
           Inr \<lparr>email_address = email_addr,
                email_subject = summary_text,
                email_template_vars =
                  \<lparr>tv_user_display_name = user_display_name,
                   tv_unsubscribe_link = make_unsubscribe_link h user_id app_id email_addr,
                   tv_summary_text = summary_text,
                   tv_app_name = app_name h,
                   tv_rooms = room_vars_list,
                   tv_reason = reason\<rparr>\<rparr>)))))))))"

section \<open>Notions used to state the properties\<close>

text \<open>The event ids of the message groups, run by run.\<close>

definition run_ids :: "notif_vars list \<Rightarrow> pystr list list" where
  "run_ids notifs = map (map mv_id \<circ> nv_messages) notifs"

text \<open>No event id occurs twice among the message groups of a room view model.\<close>

definition room_ids_distinct :: "room_vars \<Rightarrow> bool" where
  "room_ids_distinct rv = distinct (concat (run_ids (rv_notifs rv)))"

text \<open>The notifications of one room, in batch order, and their timestamps.\<close>

definition room_notifs :: "push_action list \<Rightarrow> pystr \<Rightarrow> push_action list" where
  "room_notifs push_actions r = filter (\<lambda>pa. pa_room_id pa = r) push_actions"

definition received_ts_or_0 :: "push_action \<Rightarrow> int" where
  "received_ts_or_0 pa = (case pa_received_ts pa of None \<Rightarrow> 0 | Some ts \<Rightarrow> ts)"

definition last_received_ts :: "push_action list \<Rightarrow> pystr \<Rightarrow> int" where
  "last_received_ts push_actions r = received_ts_or_0 (last (room_notifs push_actions r))"

text \<open>
  The ordering key in the words of the specification: the greatest
  \<open>received_timestamp\<close> among the notifications of the room.
\<close>

definition spec_max_received_ts :: "push_action list \<Rightarrow> pystr \<Rightarrow> int" where
  "spec_max_received_ts push_actions r =
     Max (set (map received_ts_or_0 (room_notifs push_actions r)))"

section \<open>A small homeserver to evaluate the definitions on\<close>

text \<open>
  Room \<open>!r\<close> has the timeline \<open>$a, $b, $c, $d\<close> of text messages from \<open>@alice\<close>,
  and \<open>@bob\<close> (the recipient) has joined it. Room \<open>!s\<close> holds one sticker \<open>$x\<close> from
  \<open>@carol\<close>, whose membership is not in the state snapshot, and has no name. In room
  \<open>!i\<close> \<open>@bob\<close> is invited by \<open>@alice\<close>. The state of room \<open>!n\<close> lacks the membership of
  \<open>@bob\<close>.
\<close>

definition ex_message :: "string \<Rightarrow> int \<Rightarrow> event" where
  "ex_message i ts =
     \<lparr>ev_type = m_room_message, ev_sender = str ''@alice'', ev_event_id = str i,
      ev_origin_server_ts = ts,
      ev_content = [str ''msgtype'' \<mapsto> str ''m.text'', str ''body'' \<mapsto> str ''hi'']\<rparr>"

definition ex_sticker :: event where
  "ex_sticker =
     \<lparr>ev_type = str ''m.sticker'', ev_sender = str ''@carol'', ev_event_id = str ''$x'',
      ev_origin_server_ts = 9, ev_content = [str ''body'' \<mapsto> str ''wave'']\<rparr>"

definition ex_member :: "string \<Rightarrow> string \<Rightarrow> string \<Rightarrow> string \<Rightarrow> event" where
  "ex_member i sender membership name =
     \<lparr>ev_type = m_room_member, ev_sender = str sender, ev_event_id = str i,
      ev_origin_server_ts = 0,
      ev_content = [str ''membership'' \<mapsto> str membership, str ''displayname'' \<mapsto> str name]\<rparr>"

definition ex_timeline :: "pystr \<Rightarrow> event list" where
  "ex_timeline room_id =
     (if room_id = str ''!r''
      then [ex_message ''$a'' 1, ex_message ''$b'' 2, ex_message ''$c'' 3, ex_message ''$d'' 4]
      else if room_id = str ''!s'' then [ex_sticker]
      else [])"

definition ex_events :: "pystr \<rightharpoonup> event" where
  "ex_events =
     map_of (map (\<lambda>e. (ev_event_id e, e))
       (ex_timeline (str ''!r'') @ ex_timeline (str ''!s'') @
        [ex_member ''$mu'' ''@bob'' ''join'' ''Bob'',
         ex_member ''$ma'' ''@alice'' ''join'' ''Alice'',
         ex_member ''$mi'' ''@alice'' ''invite'' ''Bob'']))"

definition ex_state :: "pystr \<Rightarrow> state_ids" where
  "ex_state room_id =
     (if room_id = str ''!r''
      then [(m_room_member, str ''@bob'') \<mapsto> str ''$mu'',
            (m_room_member, str ''@alice'') \<mapsto> str ''$ma'']
      else if room_id = str ''!s'' then [(m_room_member, str ''@bob'') \<mapsto> str ''$mu'']
      else if room_id = str ''!i''
      then [(m_room_member, str ''@bob'') \<mapsto> str ''$mi'',
            (m_room_member, str ''@alice'') \<mapsto> str ''$ma'']
      else [(m_room_member, str ''@alice'') \<mapsto> str ''$ma''])"

definition ex_around :: "event list \<Rightarrow> pystr \<Rightarrow> nat \<Rightarrow> nat \<Rightarrow> events_around" where
  "ex_around timeline event_id before_limit after_limit =
     \<lparr>events_before =
        rev (take before_limit (rev (takeWhile (\<lambda>e. ev_event_id e \<noteq> event_id) timeline))),
      events_after =
        take after_limit (tl (dropWhile (\<lambda>e. ev_event_id e \<noteq> event_id) timeline))\<rparr>"

definition ex_hs :: hs where
  "ex_hs =
     \<lparr>store_get_event = (\<lambda>i. case ex_events i of None \<Rightarrow> Inl OtherError | Some e \<Rightarrow> Inr e),
      store_get_events = (\<lambda>ids. Inr (\<lambda>i. if i \<in> set ids then ex_events i else None)),
      store_get_current_state_ids = (\<lambda>r. Inr (ex_state r)),
      store_get_events_around = (\<lambda>r i b a. Inr (ex_around (ex_timeline r) i b a)),
      store_get_profile_displayname = (\<lambda>u. Inr None),
      filter_events_for_client = (\<lambda>u evs. Inr evs),
      calculate_room_name = (\<lambda>st u fallback. Inr None),
      name_from_member_event = (\<lambda>e. ev_content e (str ''displayname'')),
      descriptor_from_member_events = (\<lambda>evs. concat (map ev_sender evs)),
      userid_localpart = (\<lambda>u. Inr u),
      generate_delete_pusher_token = (\<lambda>u. u),
      urlencode = (\<lambda>ps. concat (map snd ps)),
      bleach_clean_linkify = (\<lambda>raw tags attrs strip. raw),
      email_riot_base_url = None,
      public_baseurl = str ''https://hs/'',
      app_name = str ''Matrix''\<rparr>"

definition ex_notif :: "string \<Rightarrow> string \<Rightarrow> int \<Rightarrow> push_action" where
  "ex_notif r i ts = \<lparr>pa_room_id = str r, pa_event_id = str i, pa_received_ts = Some ts\<rparr>"

definition ex_mv :: "string \<Rightarrow> bool \<Rightarrow> message_vars" where
  "ex_mv i historical =
     \<lparr>mv_msgtype = None, mv_is_historical = historical, mv_id = str i, mv_ts = 0,
      mv_sender_name = None, mv_sender_avatar_url = None, mv_sender_hash = 0,
      mv_format = None, mv_body_text_html = None, mv_image_url = None,
      mv_body_text_plain = None\<rparr>"

definition ex_nv :: "message_vars list \<Rightarrow> notif_vars" where
  "ex_nv messages = \<lparr>nv_link = [], nv_ts = None, nv_messages = messages\<rparr>"

section \<open>Basic facts about the error plumbing and the helpers\<close>

lemma bind_err_Inr_iff: "bind_err m f = Inr y \<longleftrightarrow> (\<exists>x. m = Inr x \<and> f x = Inr y)"
  by (cases m) (simp_all add: bind_err_def)

lemma bind_err_Inl [simp]: "bind_err (Inl e) f = Inl e"
  by (simp add: bind_err_def)

lemma bind_err_Inr [simp]: "bind_err (Inr x) f = f x"
  by (simp add: bind_err_def)

lemma not_Inr_is_Inl: "(\<forall>y. m \<noteq> Inr y) \<longleftrightarrow> (\<exists>e. m = Inl e)"
  by (cases m) simp_all

lemma map_err_Inr_all:
  "map_err f xs = Inr ys \<Longrightarrow> x \<in> set xs \<Longrightarrow> \<exists>y. f x = Inr y"
  by (induction xs arbitrary: ys) (auto simp: bind_err_Inr_iff)

lemma map_err_length: "map_err f xs = Inr ys \<Longrightarrow> length ys = length xs"
  by (induction xs arbitrary: ys) (auto simp: bind_err_Inr_iff)

lemma set_deduped_loop: "set (deduped_loop xs seen ret) = set ret \<union> (set xs - seen)"
  by (induction xs seen ret rule: deduped_loop.induct) auto

lemma set_deduped_ordered_list: "set (deduped_ordered_list xs) = set xs"
  by (simp add: deduped_ordered_list_def set_deduped_loop)

lemma sort_rooms_set:
  assumes "sort_rooms notifs_by_room rooms = Inr rooms'"
  shows "set rooms' = set rooms"
proof -
  from assms obtain keys where k: "map_err (room_sort_key notifs_by_room) rooms = Inr keys"
    and r: "rooms' = map snd (sort_key fst (zip keys rooms))"
    by (auto simp: sort_rooms_def bind_err_Inr_iff)
  have "length keys = length rooms" using k by (rule map_err_length)
  then have "map snd (zip keys rooms) = rooms" by simp
  moreover have "set rooms' = snd ` set (zip keys rooms)" using r by simp
  ultimately show ?thesis by (metis set_map)
qed

lemma fetch_room_states_other:
  "fetch_room_states h rooms m = Inr sbr \<Longrightarrow> r \<notin> set rooms \<Longrightarrow> sbr r = m r"
  by (induction rooms arbitrary: m) (auto simp: bind_err_Inr_iff)

lemma fetch_room_states_lookup:
  "fetch_room_states h rooms m = Inr sbr \<Longrightarrow> r \<in> set rooms
     \<Longrightarrow> store_get_current_state_ids h r = Inr st \<Longrightarrow> sbr r = Some st"
proof (induction rooms arbitrary: m)
  case Nil
  then show ?case by simp
next
  case (Cons a rooms)
  from Cons.prems(1) obtain st' where a: "store_get_current_state_ids h a = Inr st'"
    and rest: "fetch_room_states h rooms (m(a \<mapsto> st')) = Inr sbr"
    by (auto simp: bind_err_Inr_iff)
  show ?case
  proof (cases "r \<in> set rooms")
    case True
    then show ?thesis using Cons.IH[OF rest _ Cons.prems(3)] by simp
  next
    case False
    with Cons.prems(2) have "r = a" by simp
    with a Cons.prems(3) have "st' = st" by simp
    with fetch_room_states_other[OF rest False] \<open>r = a\<close> show ?thesis by simp
  qed
qed

lemma get_room_vars_no_membership:
  "room_state_ids (m_room_member, user_id) = None
     \<Longrightarrow> get_room_vars h room_id user_id notifs notif_events room_state_ids = Inl KeyError"
  by (simp add: get_room_vars_def subscript_def)

lemma send_notification_mail_Inr_rooms:
  assumes "send_notification_mail h app_id user_id email_addr push_actions reason_room = Inr em"
  shows "\<exists>notif_events state_by_room rooms.
           fetch_room_states h (deduped_ordered_list (map pa_room_id push_actions)) Map.empty
             = Inr state_by_room
         \<and> set rooms = pa_room_id ` set push_actions
         \<and> (\<forall>r\<in>set rooms. \<exists>notifs room_state rv.
               state_by_room r = Some room_state
             \<and> get_room_vars h r user_id notifs notif_events room_state = Inr rv)"
proof -
  let ?rooms0 = "deduped_ordered_list (map pa_room_id push_actions)"
  let ?nbr = "notifs_by_room_loop push_actions []"
  from assms obtain notif_events state_by_room rooms rvs where
      f: "fetch_room_states h ?rooms0 Map.empty = Inr state_by_room"
    and s: "sort_rooms ?nbr ?rooms0 = Inr rooms"
    and m: "map_err (\<lambda>r. bind_err (subscript (map_of ?nbr) r)
                (\<lambda>notifs. bind_err (subscript state_by_room r)
                   (\<lambda>room_state. get_room_vars h r user_id notifs notif_events room_state)))
              rooms = Inr rvs"
    unfolding send_notification_mail_def Let_def bind_err_Inr_iff by blast
  have "set rooms = pa_room_id ` set push_actions"
    using sort_rooms_set[OF s] by (simp add: set_deduped_ordered_list)
  moreover have "\<exists>notifs room_state rv. state_by_room r = Some room_state
             \<and> get_room_vars h r user_id notifs notif_events room_state = Inr rv"
    if "r \<in> set rooms" for r
    using map_err_Inr_all[OF m that]
    by (auto simp: bind_err_Inr_iff subscript_def split: option.splits)
  ultimately show ?thesis using f by blast
qed

lemma ordinal_loop_sum: "ordinal_loop s tot = tot + (\<Sum>c\<leftarrow>s. int c)"
  by (induction s arbitrary: tot) simp_all

lemma string_ordinal_total_sum: "string_ordinal_total s = (\<Sum>c\<leftarrow>s. int c)"
  by (simp add: string_ordinal_total_def ordinal_loop_sum)

lemma get_room_vars_hash:
  "get_room_vars h room_id user_id notifs notif_events room_state_ids = Inr rv
     \<Longrightarrow> rv_hash rv = string_ordinal_total room_id"
  by (auto simp: get_room_vars_def bind_err_Inr_iff Let_def split: if_splits)

lemma get_message_vars_sender_hash:
  "get_message_vars h notif ev room_state_ids = Inr (Some mv)
     \<Longrightarrow> mv_sender_hash mv = string_ordinal_total (ev_sender ev)"
  by (auto simp: get_message_vars_def bind_err_Inr_iff Let_def add_text_message_vars_def
      add_image_message_vars_def split: if_splits option.splits)

lemma not_isl_Inr: "\<not> isl m \<Longrightarrow> \<exists>y. m = Inr y"
  by (cases m) simp_all

section \<open>Hashes for the default avatars\<close>

text \<open>
  Claim C8. For every string \<open>s\<close>, \<open>string_ordinal_total s\<close> is the sum of the code
  points of \<open>s\<close>; the \<open>hash\<close> of a room view model is that sum for the room id, and the
  \<open>sender_hash\<close> of a message is that sum for the sender's user id. Being a function of
  the string alone, the value is the same on every computation.
\<close>

theorem hashes_are_code_point_sums:
  "string_ordinal_total s = (\<Sum>c\<leftarrow>s. int c)
   \<and> (get_room_vars h room_id user_id notifs notif_events room_state_ids = Inr rv
        \<longrightarrow> rv_hash rv = (\<Sum>c\<leftarrow>room_id. int c))
   \<and> (get_message_vars h notif ev room_state_ids = Inr (Some mv)
        \<longrightarrow> mv_sender_hash mv = (\<Sum>c\<leftarrow>ev_sender ev. int c))"
  using get_room_vars_hash get_message_vars_sender_hash string_ordinal_total_sum
  by metis

theorem hashes_are_code_point_sums_witness:
  "string_ordinal_total (str ''!r'') = 147
   \<and> (\<exists>rv. get_room_vars ex_hs (str ''!r'') (str ''@bob'') [ex_notif ''!r'' ''$b'' 2] ex_events
              (ex_state (str ''!r'')) = Inr rv \<and> rv_hash rv = 147)
   \<and> (\<exists>mv. get_message_vars ex_hs (ex_notif ''!r'' ''$b'' 2) (ex_message ''$b'' 2)
              (ex_state (str ''!r'')) = Inr (Some mv) \<and> mv_sender_hash mv = 574)"
proof -
  have "\<not> isl (get_room_vars ex_hs (str ''!r'') (str ''@bob'') [ex_notif ''!r'' ''$b'' 2]
                 ex_events (ex_state (str ''!r'')))"
    by code_simp
  then obtain rv where rv: "get_room_vars ex_hs (str ''!r'') (str ''@bob'')
      [ex_notif ''!r'' ''$b'' 2] ex_events (ex_state (str ''!r'')) = Inr rv"
    using not_isl_Inr by blast
  have "\<not> isl (get_message_vars ex_hs (ex_notif ''!r'' ''$b'' 2) (ex_message ''$b'' 2)
                 (ex_state (str ''!r'')))"
    and "map_sum id (\<lambda>m. m = None) (get_message_vars ex_hs (ex_notif ''!r'' ''$b'' 2)
                 (ex_message ''$b'' 2) (ex_state (str ''!r''))) = Inr False"
    by code_simp+
  then obtain mv where mv: "get_message_vars ex_hs (ex_notif ''!r'' ''$b'' 2)
      (ex_message ''$b'' 2) (ex_state (str ''!r'')) = Inr (Some mv)"
    using not_isl_Inr by fastforce
  have s1: "(\<Sum>c\<leftarrow>str ''!r''. int c) = 147" and s2: "(\<Sum>c\<leftarrow>str ''@alice''. int c) = 574"
    by (simp_all add: str_def)
  have s3: "ev_sender (ex_message ''$b'' 2) = str ''@alice''"
    by (simp add: ex_message_def)
  from hashes_are_code_point_sums[of "str ''!r''" ex_hs "str ''!r''" "str ''@bob''"
      "[ex_notif ''!r'' ''$b'' 2]" ex_events "ex_state (str ''!r'')" rv
      "ex_notif ''!r'' ''$b'' 2" "ex_message ''$b'' 2" mv]
  show ?thesis using rv mv s1 s2 s3 by simp
qed

section \<open>Invitations\<close>

text \<open>
  Claim C5. When the recipient's membership in the room is \<open>invite\<close>, the room view
  model is built with an empty list of notifications (\<open>rv_notifs\<close>), whatever the
  notifications of the room are: only title, hash, invite flag and link are filled in.
\<close>

theorem invite_room_has_no_messages:
  assumes "room_state_ids (m_room_member, user_id) = Some my_member_event_id"
    and "store_get_event h my_member_event_id = Inr my_member_event"
    and "ev_content my_member_event (str ''membership'') = Some (str ''invite'')"
    and "calculate_room_name h room_state_ids user_id True = Inr room_name"
  shows "get_room_vars h room_id user_id notifs notif_events room_state_ids =
           Inr \<lparr>rv_title = room_name, rv_hash = string_ordinal_total room_id, rv_notifs = [],
                rv_invite = True, rv_link = make_room_link h room_id\<rparr>"
  using assms by (simp add: get_room_vars_def subscript_def)

theorem invite_room_has_no_messages_witness:
  "get_room_vars ex_hs (str ''!i'') (str ''@bob'')
     [ex_notif ''!i'' ''$mi'' 7, ex_notif ''!i'' ''$a'' 8] ex_events (ex_state (str ''!i'')) =
   Inr \<lparr>rv_title = None, rv_hash = string_ordinal_total (str ''!i''), rv_notifs = [],
        rv_invite = True, rv_link = make_room_link ex_hs (str ''!i'')\<rparr>"
proof -
  have a1: "ex_state (str ''!i'') (m_room_member, str ''@bob'') = Some (str ''$mi'')"
    by code_simp
  have a2: "store_get_event ex_hs (str ''$mi'') = Inr (ex_member ''$mi'' ''@alice'' ''invite'' ''Bob'')"
    by (simp add: ex_hs_def ex_events_def ex_timeline_def ex_message_def ex_sticker_def
        ex_member_def str_def)
  have a3: "ev_content (ex_member ''$mi'' ''@alice'' ''invite'' ''Bob'') (str ''membership'')
              = Some (str ''invite'')"
    by code_simp
  have a4: "calculate_room_name ex_hs (ex_state (str ''!i'')) (str ''@bob'') True = Inr None"
    by (simp add: ex_hs_def)
  show ?thesis by (rule invite_room_has_no_messages[OF a1 a2 a3 a4])
qed

section \<open>A missing membership event\<close>

text \<open>
  Claim C6. If the state snapshot of a room has no entry for
  \<open>("m.room.member", user_id)\<close>, then \<open>get_room_vars\<close> raises (a \<open>KeyError\<close>) and builds
  no room view model; and when such a room belongs to the batch, \<open>send_notification_mail\<close>
  ends with an exception before it reaches \<open>send_email\<close>, so nothing is rendered.
\<close>

theorem missing_membership_is_fatal:
  assumes "room_state_ids (m_room_member, user_id) = None"
  shows "get_room_vars h room_id user_id notifs notif_events room_state_ids = Inl KeyError
       \<and> (pa \<in> set push_actions
            \<and> store_get_current_state_ids h (pa_room_id pa) = Inr room_state_ids
          \<longrightarrow> (\<exists>e. send_notification_mail h app_id user_id email_addr push_actions reason_room
                      = Inl e))"
proof (intro conjI impI)
  show "get_room_vars h room_id user_id notifs notif_events room_state_ids = Inl KeyError"
    using assms get_room_vars_no_membership[of room_state_ids user_id] by simp
next
  assume pa: "pa \<in> set push_actions
            \<and> store_get_current_state_ids h (pa_room_id pa) = Inr room_state_ids"
  let ?r = "pa_room_id pa"
  have "send_notification_mail h app_id user_id email_addr push_actions reason_room \<noteq> Inr em"
    for em
  proof
    assume "send_notification_mail h app_id user_id email_addr push_actions reason_room = Inr em"
    from send_notification_mail_Inr_rooms[OF this]
    obtain notif_events' state_by_room rooms where
        f: "fetch_room_states h (deduped_ordered_list (map pa_room_id push_actions)) Map.empty
             = Inr state_by_room"
      and rs: "set rooms = pa_room_id ` set push_actions"
      and ok: "\<forall>r\<in>set rooms. \<exists>notifs room_state rv.
               state_by_room r = Some room_state
             \<and> get_room_vars h r user_id notifs notif_events' room_state = Inr rv"
      by blast
    have "?r \<in> set (deduped_ordered_list (map pa_room_id push_actions))"
      using pa by (simp add: set_deduped_ordered_list)
    from fetch_room_states_lookup[OF f this] pa
    have "state_by_room ?r = Some room_state_ids" by simp
    moreover have "?r \<in> set rooms" using pa rs by blast
    ultimately obtain notifs' rv where
      "get_room_vars h ?r user_id notifs' notif_events' room_state_ids = Inr rv"
      using ok by fastforce
    then show False
      using get_room_vars_no_membership[of room_state_ids user_id h ?r notifs' notif_events']
        assms by simp
  qed
  then show "\<exists>e. send_notification_mail h app_id user_id email_addr push_actions reason_room
                      = Inl e"
    by (cases "send_notification_mail h app_id user_id email_addr push_actions reason_room")
      auto
qed


theorem missing_membership_is_fatal_witness:
  "get_room_vars ex_hs (str ''!n'') (str ''@bob'') [ex_notif ''!n'' ''$b'' 3] ex_events
     (ex_state (str ''!n'')) = Inl KeyError
   \<and> (\<exists>e. send_notification_mail ex_hs (str ''app'') (str ''@bob'') (str ''bob@x'')
             [ex_notif ''!r'' ''$b'' 2, ex_notif ''!n'' ''$b'' 3] (str ''!r'') = Inl e)"
proof -
  have a1: "ex_state (str ''!n'') (m_room_member, str ''@bob'') = None"
    by code_simp
  have a2: "ex_notif ''!n'' ''$b'' 3 \<in> set [ex_notif ''!r'' ''$b'' 2, ex_notif ''!n'' ''$b'' 3]"
    by simp
  have a3: "store_get_current_state_ids ex_hs (pa_room_id (ex_notif ''!n'' ''$b'' 3))
              = Inr (ex_state (str ''!n''))"
    by (simp add: ex_hs_def ex_notif_def)
  from missing_membership_is_fatal[of "ex_state (str ''!n'')" "str ''@bob''" ex_hs "str ''!n''"
      "[ex_notif ''!n'' ''$b'' 3]" ex_events "ex_notif ''!n'' ''$b'' 3"
      "[ex_notif ''!r'' ''$b'' 2, ex_notif ''!n'' ''$b'' 3]" "str ''app''" "str ''bob@x''"
      "str ''!r''"] a1 a2 a3
  show ?thesis by simp
qed

section \<open>The context of a notification\<close>

text \<open>
  Claim C3 says that the message list of a notification holds the message before the
  triggering event, the triggering event and the message after it. In room \<open>!r\<close>, for the
  notification of \<open>$b\<close>, the store returns \<open>$a\<close> before and \<open>$c\<close> after, and
  \<open>get_notif_vars\<close> builds the list \<open>$a, $b\<close>: the events after the trigger are
  requested and not used.
\<close>

theorem events_after_are_not_rendered:
  "map_sum id (map ev_event_id \<circ> events_before)
     (store_get_events_around ex_hs (str ''!r'') (str ''$b'') CONTEXT_BEFORE CONTEXT_AFTER)
     = Inr [str ''$a'']
   \<and> map_sum id (map ev_event_id \<circ> events_after)
     (store_get_events_around ex_hs (str ''!r'') (str ''$b'') CONTEXT_BEFORE CONTEXT_AFTER)
     = Inr [str ''$c'']
   \<and> map_sum id (map mv_id \<circ> nv_messages)
     (get_notif_vars ex_hs (ex_notif ''!r'' ''$b'' 2) (str ''@bob'') (ex_message ''$b'' 2)
        (ex_state (str ''!r'')))
     = Inr [str ''$a'', str ''$b'']"
  by code_simp

section \<open>The summary of a single notification from an unknown sender\<close>

text \<open>
  Claim C4 says that with one room, one notification, no invitation, and neither a
  sender name nor a room name, the summary is the "several messages" phrasing. In room
  \<open>!s\<close> the only notification is the sticker \<open>$x\<close> of \<open>@carol\<close>, who has no membership
  event in the state, and the room has no name: \<open>make_summary_text\<close> reaches its end
  without a \<open>return\<close> and the result is \<open>None\<close>, which \<open>send_notification_mail\<close> passes to
  \<open>send_email\<close> as the subject.
\<close>

theorem single_notification_unknown_sender_no_summary:
  "make_summary_text ex_hs [(str ''!s'', [ex_notif ''!s'' ''$x'' 9])]
     [str ''!s'' \<mapsto> ex_state (str ''!s'')] ex_events (str ''@bob'')
     \<lparr>reason_room_id = str ''!s'', reason_room_name = None\<rparr> = Inr None
   \<and> map_sum id email_subject
       (send_notification_mail ex_hs (str ''app'') (str ''@bob'') (str ''bob@x'')
          [ex_notif ''!s'' ''$x'' 9] (str ''!s'')) = Inr None"
  by code_simp

section \<open>The merge of overlapping notifications\<close>

lemma ids_set_first_not_historical:
  "map mv_id (set_first_not_historical i prev) = map mv_id prev"
  by (induction prev) auto

lemma merge_loop_Cons:
  "merge_loop prev (m # ms) merge =
     (if mv_id m \<in> mv_id ` set prev
      then merge_loop (if \<not> mv_is_historical m then set_first_not_historical (mv_id m) prev
                       else prev) ms True
      else if merge then merge_loop (prev @ [m]) ms merge
      else merge_loop prev ms merge)"
proof -
  have "(filter (\<lambda>pm. mv_id pm = mv_id m) prev \<noteq> []) = (mv_id m \<in> mv_id ` set prev)"
    by (auto simp: filter_empty_conv intro: rev_image_eqI)
  then show ?thesis by (simp add: Let_def)
qed

lemma run_ids_append: "run_ids (xs @ ys) = run_ids xs @ run_ids ys"
  by (simp add: run_ids_def)

lemma run_ids_single: "run_ids [nv] = [map mv_id (nv_messages nv)]"
  by (simp add: run_ids_def)

lemma id_set_set_first_not_historical:
  "mv_id ` set (set_first_not_historical i prev) = mv_id ` set prev"
  using ids_set_first_not_historical[of i prev] by (metis set_map)

lemma merge_loop_all_found:
  "mv_id ` set nxt \<subseteq> mv_id ` set prev
     \<Longrightarrow> map mv_id (fst (merge_loop prev nxt merge)) = map mv_id prev
         \<and> snd (merge_loop prev nxt merge) = (merge \<or> nxt \<noteq> [])"
proof (induction nxt arbitrary: prev merge)
  case Nil
  then show ?case by simp
next
  case (Cons m ms)
  let ?prev' = "if \<not> mv_is_historical m then set_first_not_historical (mv_id m) prev else prev"
  have ids: "map mv_id ?prev' = map mv_id prev"
    by (simp add: ids_set_first_not_historical)
  have "mv_id ` set ms \<subseteq> mv_id ` set ?prev'"
    using Cons.prems by (auto simp: id_set_set_first_not_historical)
  from Cons.IH[OF this, of True] ids Cons.prems show ?case
    by (simp add: merge_loop_Cons del: merge_loop.simps(2))
qed

lemma run_ids_merged_last:
  assumes "notifs \<noteq> []" and "map mv_id p = map mv_id (nv_messages (last notifs))"
  shows "run_ids (butlast notifs @ [(last notifs)\<lparr>nv_messages := p\<rparr>]) = run_ids notifs"
proof -
  have "run_ids notifs = run_ids (butlast notifs @ [last notifs])"
    using assms(1) by simp
  then show ?thesis using assms(2) by (simp add: run_ids_def)
qed


lemma merge_loop_skip:
  "\<forall>x\<in>set xs. mv_id x \<notin> mv_id ` set prev
     \<Longrightarrow> merge_loop prev (xs @ ys) False = merge_loop prev ys False"
  by (induction xs) (simp_all add: merge_loop_Cons del: merge_loop.simps(2))

lemma merge_loop_snd_True: "snd (merge_loop prev nxt True)"
  by (induction nxt arbitrary: prev) (simp_all add: merge_loop_Cons del: merge_loop.simps(2))

lemma merge_loop_found_snd:
  "mv_id m \<in> mv_id ` set prev \<Longrightarrow> snd (merge_loop prev (m # ys) merge)"
  by (simp add: merge_loop_Cons merge_loop_snd_True del: merge_loop.simps(2))

lemma merge_loop_ids_subset:
  "e \<in> set (fst (merge_loop prev nxt merge))
     \<Longrightarrow> mv_id e \<in> mv_id ` set prev \<union> mv_id ` set nxt"
proof (induction nxt arbitrary: prev merge)
  case Nil
  then show ?case by simp
next
  case (Cons m ms)
  show ?case
  proof (cases "mv_id m \<in> mv_id ` set prev")
    case True
    let ?p = "if \<not> mv_is_historical m then set_first_not_historical (mv_id m) prev else prev"
    have "merge_loop prev (m # ms) merge = merge_loop ?p ms True"
      using True by (simp add: merge_loop_Cons del: merge_loop.simps(2))
    with Cons.prems have "e \<in> set (fst (merge_loop ?p ms True))" by simp
    from Cons.IH[OF this] have "mv_id e \<in> mv_id ` set ?p \<union> mv_id ` set ms" .
    moreover have "mv_id ` set ?p = mv_id ` set prev"
      by (simp add: id_set_set_first_not_historical)
    ultimately show ?thesis by auto
  next
    case False
    show ?thesis
    proof (cases merge)
      case True
      have "merge_loop prev (m # ms) merge = merge_loop (prev @ [m]) ms merge"
        using True False by (simp add: merge_loop_Cons del: merge_loop.simps(2))
      with Cons.prems have "e \<in> set (fst (merge_loop (prev @ [m]) ms merge))" by simp
      from Cons.IH[OF this] show ?thesis by auto
    next
      case nomerge: False
      have "merge_loop prev (m # ms) merge = merge_loop prev ms merge"
        using nomerge False by (simp add: merge_loop_Cons del: merge_loop.simps(2))
      with Cons.prems have "e \<in> set (fst (merge_loop prev ms merge))" by simp
      from Cons.IH[OF this] show ?thesis by auto
    qed
  qed
qed


lemma merge_loop_step:
  "merge_loop prev (m # ms) merge =
     merge_loop
       (if mv_id m \<in> mv_id ` set prev
        then (if \<not> mv_is_historical m then set_first_not_historical (mv_id m) prev else prev)
        else if merge then prev @ [m] else prev)
       ms (mv_id m \<in> mv_id ` set prev \<or> merge)"
  by (simp add: merge_loop_Cons del: merge_loop.simps(2))

lemma merge_loop_distinct:
  "distinct (map mv_id prev) \<Longrightarrow> distinct (map mv_id (fst (merge_loop prev nxt merge)))"
proof (induction nxt arbitrary: prev merge)
  case Nil
  then show ?case by simp
next
  case (Cons m ms)
  let ?prev' = "if mv_id m \<in> mv_id ` set prev
        then (if \<not> mv_is_historical m then set_first_not_historical (mv_id m) prev else prev)
        else if merge then prev @ [m] else prev"
  have "distinct (map mv_id ?prev')"
    using Cons.prems by (simp add: ids_set_first_not_historical)
  then have "distinct (map mv_id (fst (merge_loop ?prev' ms (mv_id m \<in> mv_id ` set prev \<or> merge))))"
    by (rule Cons.IH)
  then show ?case by (simp only: merge_loop_step)
qed

lemma merge_notif_distinct:
  assumes "\<forall>run\<in>set notifs. distinct (map mv_id (nv_messages run))"
    and "distinct (map mv_id (nv_messages notifvars))"
  shows "\<forall>run\<in>set (merge_notif notifs notifvars). distinct (map mv_id (nv_messages run))"
proof (cases "notifs = []")
  case True
  then show ?thesis using assms(2) by (simp add: merge_notif_def)
next
  case False
  let ?p = "fst (merge_loop (nv_messages (last notifs)) (nv_messages notifvars) False)"
  have "distinct (map mv_id (nv_messages (last notifs)))"
    using assms(1) False by simp
  then have "distinct (map mv_id ?p)" by (rule merge_loop_distinct)
  moreover have "\<forall>run\<in>set (butlast notifs). distinct (map mv_id (nv_messages run))"
    using assms(1) by (auto dest: in_set_butlastD)
  ultimately show ?thesis
    using False assms(2) by (auto simp: merge_notif_def split_beta Let_def)
qed

lemma room_notifs_loop_distinct:
  assumes "room_notifs_loop h user_id notif_events st notifs acc = Inr res"
    and "\<forall>run\<in>set acc. distinct (map mv_id (nv_messages run))"
    and "\<forall>n\<in>set notifs. \<forall>ev nv. notif_events (pa_event_id n) = Some ev
            \<longrightarrow> get_notif_vars h n user_id ev st = Inr nv
            \<longrightarrow> distinct (map mv_id (nv_messages nv))"
  shows "\<forall>run\<in>set res. distinct (map mv_id (nv_messages run))"
  using assms
proof (induction notifs arbitrary: acc)
  case Nil
  then show ?case by simp
next
  case (Cons n notifs)
  from Cons.prems(1) obtain ev nv where ev: "notif_events (pa_event_id n) = Some ev"
    and nv: "get_notif_vars h n user_id ev st = Inr nv"
    and rest: "room_notifs_loop h user_id notif_events st notifs (merge_notif acc nv) = Inr res"
    by (auto simp: bind_err_Inr_iff subscript_def split: option.splits)
  have "distinct (map mv_id (nv_messages nv))"
    using Cons.prems(3) ev nv by simp
  with Cons.prems(2)
  have "\<forall>run\<in>set (merge_notif acc nv). distinct (map mv_id (nv_messages run))"
    by (intro merge_notif_distinct)
  from Cons.IH[OF rest this] Cons.prems(3) show ?case by simp
qed

lemma set_first_not_historical_flag:
  "distinct (map mv_id prev) \<Longrightarrow> e \<in> set (set_first_not_historical i prev)
     \<Longrightarrow> mv_id e = i \<Longrightarrow> \<not> mv_is_historical e"
proof (induction prev)
  case Nil
  then show ?case by simp
next
  case (Cons p prev)
  show ?case
  proof (cases "mv_id p = i")
    case True
    with Cons.prems(2) have "e = p\<lparr>mv_is_historical := False\<rparr> \<or> e \<in> set prev" by simp
    moreover have "mv_id p \<notin> mv_id ` set prev" using Cons.prems(1) by simp
    then have "mv_id x \<noteq> i" if "x \<in> set prev" for x
      using True that by (metis imageI)
    ultimately show ?thesis using Cons.prems(3) by force
  next
    case False
    with Cons.prems(2) have "e = p \<or> e \<in> set (set_first_not_historical i prev)" by simp
    moreover have "distinct (map mv_id prev)" using Cons.prems(1) by simp
    ultimately show ?thesis using False Cons.prems(3) Cons.IH by blast
  qed
qed

lemma set_first_not_historical_keeps:
  "(\<And>e. e \<in> set prev \<Longrightarrow> mv_id e = i \<Longrightarrow> \<not> mv_is_historical e)
     \<Longrightarrow> e \<in> set (set_first_not_historical j prev) \<Longrightarrow> mv_id e = i \<Longrightarrow> \<not> mv_is_historical e"
proof (induction prev)
  case Nil
  then show ?case by simp
next
  case (Cons p prev)
  show ?case
  proof (cases "mv_id p = j")
    case True
    with Cons.prems(2) have "e = p\<lparr>mv_is_historical := False\<rparr> \<or> e \<in> set prev" by simp
    then show ?thesis
    proof
      assume "e = p\<lparr>mv_is_historical := False\<rparr>"
      then show ?thesis by simp
    next
      assume "e \<in> set prev"
      then show ?thesis using Cons.prems(1,3) by simp
    qed
  next
    case False
    with Cons.prems(2) have "e = p \<or> e \<in> set (set_first_not_historical j prev)" by simp
    then show ?thesis
    proof
      assume "e = p"
      then show ?thesis using Cons.prems(1,3) by simp
    next
      assume "e \<in> set (set_first_not_historical j prev)"
      then show ?thesis using Cons.IH Cons.prems(1,3) by simp
    qed
  qed
qed

lemma merge_loop_keeps_flag:
  assumes "\<forall>e\<in>set prev. mv_id e = i \<longrightarrow> \<not> mv_is_historical e" and "i \<in> mv_id ` set prev"
  shows "\<forall>e\<in>set (fst (merge_loop prev nxt merge)). mv_id e = i \<longrightarrow> \<not> mv_is_historical e"
  using assms
proof (induction nxt arbitrary: prev merge)
  case Nil
  then show ?case by simp
next
  case (Cons m ms)
  let ?prev' = "if mv_id m \<in> mv_id ` set prev
        then (if \<not> mv_is_historical m then set_first_not_historical (mv_id m) prev else prev)
        else if merge then prev @ [m] else prev"
  have "mv_id m \<noteq> i" if "mv_id m \<notin> mv_id ` set prev"
    using that Cons.prems(2) by blast
  have k: "\<forall>e\<in>set ?prev'. mv_id e = i \<longrightarrow> \<not> mv_is_historical e"
  proof (intro ballI impI)
    fix e assume e: "e \<in> set ?prev'" and ei: "mv_id e = i"
    show "\<not> mv_is_historical e"
    proof (cases "mv_id m \<in> mv_id ` set prev")
      case True
      show ?thesis
      proof (cases "mv_is_historical m")
        case True
        with \<open>mv_id m \<in> mv_id ` set prev\<close> e have "e \<in> set prev" by simp
        then show ?thesis using Cons.prems(1) ei by simp
      next
        case False
        with \<open>mv_id m \<in> mv_id ` set prev\<close> e
        have "e \<in> set (set_first_not_historical (mv_id m) prev)" by simp
        then show ?thesis
          using set_first_not_historical_keeps[of prev i e "mv_id m"] Cons.prems(1) ei by blast
      qed
    next
      case False
      then have "mv_id m \<noteq> i" by (rule \<open>mv_id m \<notin> mv_id ` set prev \<Longrightarrow> mv_id m \<noteq> i\<close>)
      moreover have "e \<in> set prev \<or> e = m" using False e by (cases merge) auto
      ultimately show ?thesis using Cons.prems(1) ei by blast
    qed
  qed
  have "i \<in> mv_id ` set ?prev'"
    using Cons.prems(2) by (auto simp: id_set_set_first_not_historical)
  with k have "\<forall>e\<in>set (fst (merge_loop ?prev' ms (mv_id m \<in> mv_id ` set prev \<or> merge))).
                 mv_id e = i \<longrightarrow> \<not> mv_is_historical e"
    by (rule Cons.IH)
  then show ?case by (simp only: merge_loop_step)
qed

lemma merge_loop_ids_kept:
  "i \<in> mv_id ` set prev \<Longrightarrow> i \<in> mv_id ` set (fst (merge_loop prev nxt merge))"
proof (induction nxt arbitrary: prev merge)
  case Nil
  then show ?case by simp
next
  case (Cons m ms)
  let ?prev' = "if mv_id m \<in> mv_id ` set prev
        then (if \<not> mv_is_historical m then set_first_not_historical (mv_id m) prev else prev)
        else if merge then prev @ [m] else prev"
  have "i \<in> mv_id ` set ?prev'"
    using Cons.prems by (auto simp: id_set_set_first_not_historical)
  then have "i \<in> mv_id ` set (fst (merge_loop ?prev' ms (mv_id m \<in> mv_id ` set prev \<or> merge)))"
    by (rule Cons.IH)
  then show ?case by (simp only: merge_loop_step)
qed

lemma merge_loop_trigger_flag:
  assumes "distinct (map mv_id prev)" and "m \<in> set nxt"
    and "mv_id m \<in> mv_id ` set prev" and "\<not> mv_is_historical m"
  shows "\<forall>e\<in>set (fst (merge_loop prev nxt merge)). mv_id e = mv_id m \<longrightarrow> \<not> mv_is_historical e"
  using assms
proof (induction nxt arbitrary: prev merge)
  case Nil
  then show ?case by simp
next
  case (Cons a ms)
  let ?prev' = "if mv_id a \<in> mv_id ` set prev
        then (if \<not> mv_is_historical a then set_first_not_historical (mv_id a) prev else prev)
        else if merge then prev @ [a] else prev"
  let ?merge' = "mv_id a \<in> mv_id ` set prev \<or> merge"
  have d': "distinct (map mv_id ?prev')"
    using Cons.prems(1) by (simp add: ids_set_first_not_historical)
  have i': "mv_id m \<in> mv_id ` set ?prev'"
    using Cons.prems(3) by (auto simp: id_set_set_first_not_historical)
  have "\<forall>e\<in>set (fst (merge_loop ?prev' ms ?merge')). mv_id e = mv_id m \<longrightarrow> \<not> mv_is_historical e"
  proof (cases "a = m")
    case True
    then have eq: "?prev' = set_first_not_historical (mv_id m) prev"
      using Cons.prems(3,4) by simp
    have "\<forall>e\<in>set (set_first_not_historical (mv_id m) prev).
            mv_id e = mv_id m \<longrightarrow> \<not> mv_is_historical e"
      using set_first_not_historical_flag[OF Cons.prems(1)] by blast
    then have "\<forall>e\<in>set ?prev'. mv_id e = mv_id m \<longrightarrow> \<not> mv_is_historical e"
      by (simp only: eq)
    then show ?thesis using i' by (rule merge_loop_keeps_flag)
  next
    case False
    then have "m \<in> set ms" using Cons.prems(2) by simp
    with d' show ?thesis using i' Cons.prems(4) by (rule Cons.IH)
  qed
  then show ?case by (simp only: merge_loop_step)
qed

subsection \<open>Merging a run with itself\<close>

text \<open>
  Claim C7. Feeding an already merged run to the merge step as the incoming message list
  finds every message in the run: the list of event ids of the run is unchanged (nothing
  is appended, no id is duplicated), only flags may change, and the merge flag is set
  unless the run is empty. For \<open>merge_notif\<close> the sequence of all event ids of the room
  is unchanged, and no new run is added when the last run is not empty.
\<close>

theorem merge_with_itself_adds_nothing:
  "map mv_id (fst (merge_loop prev prev False)) = map mv_id prev
   \<and> snd (merge_loop prev prev False) = (prev \<noteq> [])
   \<and> (notifs \<noteq> [] \<and> nv_messages notifvars = nv_messages (last notifs)
        \<longrightarrow> concat (run_ids (merge_notif notifs notifvars)) = concat (run_ids notifs)
          \<and> (nv_messages (last notifs) \<noteq> []
               \<longrightarrow> run_ids (merge_notif notifs notifvars) = run_ids notifs))"
proof (intro conjI impI)
  show "map mv_id (fst (merge_loop prev prev False)) = map mv_id prev"
    and "snd (merge_loop prev prev False) = (prev \<noteq> [])"
    using merge_loop_all_found[of prev prev False] by simp_all
next
  assume a: "notifs \<noteq> [] \<and> nv_messages notifvars = nv_messages (last notifs)"
  let ?p = "nv_messages (last notifs)"
  have m: "map mv_id (fst (merge_loop ?p ?p False)) = map mv_id ?p"
    and f: "snd (merge_loop ?p ?p False) = (?p \<noteq> [])"
    using merge_loop_all_found[of ?p ?p False] by simp_all
  have r: "run_ids (butlast notifs @ [(last notifs)\<lparr>nv_messages := fst (merge_loop ?p ?p False)\<rparr>])
             = run_ids notifs"
    using a m by (intro run_ids_merged_last) simp_all
  show "concat (run_ids (merge_notif notifs notifvars)) = concat (run_ids notifs)"
  proof (cases "?p = []")
    case True
    then show ?thesis using a r
      by (simp add: merge_notif_def run_ids_append run_ids_single del: append_assoc)
  next
    case False
    then show ?thesis using a f r by (simp add: merge_notif_def split_beta)
  qed
  show "run_ids (merge_notif notifs notifvars) = run_ids notifs" if "?p \<noteq> []"
    using that a f r by (simp add: merge_notif_def split_beta)
qed

theorem merge_with_itself_adds_nothing_witness:
  "map mv_id (fst (merge_loop [ex_mv ''$a'' True, ex_mv ''$b'' False]
                     [ex_mv ''$a'' True, ex_mv ''$b'' False] False)) = [str ''$a'', str ''$b'']
   \<and> snd (merge_loop [ex_mv ''$a'' True, ex_mv ''$b'' False]
                     [ex_mv ''$a'' True, ex_mv ''$b'' False] False)
   \<and> run_ids (merge_notif [ex_nv [ex_mv ''$a'' True, ex_mv ''$b'' False]]
                 (ex_nv [ex_mv ''$a'' True, ex_mv ''$b'' False]))
       = [[str ''$a'', str ''$b'']]"
  using merge_with_itself_adds_nothing[of "[ex_mv ''$a'' True, ex_mv ''$b'' False]"
      "[ex_nv [ex_mv ''$a'' True, ex_mv ''$b'' False]]"
      "ex_nv [ex_mv ''$a'' True, ex_mv ''$b'' False]"]
  by (simp add: ex_nv_def ex_mv_def run_ids_def del: merge_loop.simps)

subsection \<open>Messages in front of the first duplicate\<close>

text \<open>
  Claim C10. When the message list of a notification is \<open>xs @ m # ys\<close>, where no message
  of \<open>xs\<close> has its event id in the previous run and \<open>m\<close> has, then the merge treats the
  list as if it were \<open>m # ys\<close>: the messages \<open>xs\<close> are appended nowhere (their ids do not
  occur in the merged run unless \<open>ys\<close> brings them again), the merge flag is set, and
  \<open>merge_notif\<close> does not add the notification as a new run.
\<close>

theorem messages_before_first_duplicate_are_dropped:
  assumes "\<forall>x\<in>set xs. mv_id x \<notin> mv_id ` set prev" and "mv_id m \<in> mv_id ` set prev"
  shows "merge_loop prev (xs @ m # ys) False = merge_loop prev (m # ys) False
       \<and> snd (merge_loop prev (xs @ m # ys) False)
       \<and> (\<forall>x\<in>set xs. mv_id x \<notin> mv_id ` set ys
            \<longrightarrow> mv_id x \<notin> mv_id ` set (fst (merge_loop prev (xs @ m # ys) False)))
       \<and> (notifs \<noteq> [] \<and> nv_messages (last notifs) = prev
            \<and> nv_messages notifvars = xs @ m # ys
          \<longrightarrow> merge_notif notifs notifvars =
                butlast notifs @
                  [(last notifs)\<lparr>nv_messages := fst (merge_loop prev (m # ys) False)\<rparr>])"
proof -
  have skip: "merge_loop prev (xs @ m # ys) False = merge_loop prev (m # ys) False"
    using assms(1) by (rule merge_loop_skip)
  have flag: "snd (merge_loop prev (m # ys) False)"
    using assms(2) by (rule merge_loop_found_snd)
  have gone: "mv_id x \<notin> mv_id ` set (fst (merge_loop prev (m # ys) False))"
    if "x \<in> set xs" and "mv_id x \<notin> mv_id ` set ys" for x
  proof
    assume "mv_id x \<in> mv_id ` set (fst (merge_loop prev (m # ys) False))"
    then obtain e where e: "e \<in> set (fst (merge_loop prev (m # ys) False))"
      and ex: "mv_id e = mv_id x" by auto
    have "mv_id e \<in> mv_id ` set prev \<union> mv_id ` set (m # ys)"
      using e by (rule merge_loop_ids_subset)
    moreover have "mv_id x \<notin> mv_id ` set prev" using assms(1) that(1) by blast
    moreover have "mv_id x \<noteq> mv_id m" using assms(2) calculation(2) by auto
    ultimately show False using that(2) ex by auto
  qed
  show ?thesis using skip flag gone
    by (auto simp: merge_notif_def split_beta simp del: merge_loop.simps(2))
qed

theorem messages_before_first_duplicate_are_dropped_witness:
  "merge_loop [ex_mv ''$a'' True, ex_mv ''$b'' False]
       ([ex_mv ''$x'' True] @ ex_mv ''$b'' True # [ex_mv ''$c'' False]) False
     = merge_loop [ex_mv ''$a'' True, ex_mv ''$b'' False]
       (ex_mv ''$b'' True # [ex_mv ''$c'' False]) False
   \<and> snd (merge_loop [ex_mv ''$a'' True, ex_mv ''$b'' False]
       ([ex_mv ''$x'' True] @ ex_mv ''$b'' True # [ex_mv ''$c'' False]) False)
   \<and> str ''$x'' \<notin> mv_id ` set (fst (merge_loop [ex_mv ''$a'' True, ex_mv ''$b'' False]
       ([ex_mv ''$x'' True] @ ex_mv ''$b'' True # [ex_mv ''$c'' False]) False))
   \<and> length (merge_notif [ex_nv [ex_mv ''$a'' True, ex_mv ''$b'' False]]
       (ex_nv ([ex_mv ''$x'' True] @ ex_mv ''$b'' True # [ex_mv ''$c'' False]))) = 1"
proof -
  have h1: "\<forall>x\<in>set [ex_mv ''$x'' True].
              mv_id x \<notin> mv_id ` set [ex_mv ''$a'' True, ex_mv ''$b'' False]"
    by (simp add: ex_mv_def str_def)
  have h2: "mv_id (ex_mv ''$b'' True) \<in> mv_id ` set [ex_mv ''$a'' True, ex_mv ''$b'' False]"
    by (simp add: ex_mv_def)
  have h3: "mv_id (ex_mv ''$x'' True) \<notin> mv_id ` set [ex_mv ''$c'' False]"
    by (simp add: ex_mv_def str_def)
  have h4: "mv_id (ex_mv ''$x'' True) = str ''$x''"
    by (simp add: ex_mv_def)
  note t = messages_before_first_duplicate_are_dropped[OF h1 h2, of "[ex_mv ''$c'' False]"
      "[ex_nv [ex_mv ''$a'' True, ex_mv ''$b'' False]]"
      "ex_nv ([ex_mv ''$x'' True] @ ex_mv ''$b'' True # [ex_mv ''$c'' False])"]
  note c1 = t[THEN conjunct1]
  note c2 = t[THEN conjunct2, THEN conjunct1]
  note c3 = t[THEN conjunct2, THEN conjunct2, THEN conjunct1]
  note c4 = t[THEN conjunct2, THEN conjunct2, THEN conjunct2]
  have "mv_id (ex_mv ''$x'' True) \<notin> mv_id ` set (fst (merge_loop
          [ex_mv ''$a'' True, ex_mv ''$b'' False]
          ([ex_mv ''$x'' True] @ ex_mv ''$b'' True # [ex_mv ''$c'' False]) False))"
    by (rule c3[rule_format]) (simp, rule h3)
  then have d3: "str ''$x'' \<notin> mv_id ` set (fst (merge_loop
          [ex_mv ''$a'' True, ex_mv ''$b'' False]
          ([ex_mv ''$x'' True] @ ex_mv ''$b'' True # [ex_mv ''$c'' False]) False))"
    unfolding h4 .
  have "merge_notif [ex_nv [ex_mv ''$a'' True, ex_mv ''$b'' False]]
       (ex_nv ([ex_mv ''$x'' True] @ ex_mv ''$b'' True # [ex_mv ''$c'' False]))
     = butlast [ex_nv [ex_mv ''$a'' True, ex_mv ''$b'' False]] @
        [(last [ex_nv [ex_mv ''$a'' True, ex_mv ''$b'' False]])\<lparr>nv_messages :=
            fst (merge_loop [ex_mv ''$a'' True, ex_mv ''$b'' False]
                   (ex_mv ''$b'' True # [ex_mv ''$c'' False]) False)\<rparr>]"
    by (rule mp[OF c4]) (simp add: ex_nv_def)
  then have d4: "length (merge_notif [ex_nv [ex_mv ''$a'' True, ex_mv ''$b'' False]]
       (ex_nv ([ex_mv ''$x'' True] @ ex_mv ''$b'' True # [ex_mv ''$c'' False]))) = 1"
    by (simp only: length_append length_butlast list.size)
  show ?thesis using c1 c2 d3 d4 by blast
qed

subsection \<open>Event ids after the merge pass\<close>

text \<open>
  Claim C1 says that after the merge pass no two message groups of the room share an
  event id. The merge only looks at the last run: for the notifications of \<open>$b\<close>,
  \<open>$d\<close> and \<open>$b\<close> again in room \<open>!r\<close>, the runs are \<open>$a $b\<close>, \<open>$c $d\<close> and \<open>$a $b\<close>.
\<close>

theorem merge_pass_duplicate_ids_counterexample:
  "map_sum id (run_ids \<circ> rv_notifs)
     (get_room_vars ex_hs (str ''!r'') (str ''@bob'')
        [ex_notif ''!r'' ''$b'' 2, ex_notif ''!r'' ''$d'' 4, ex_notif ''!r'' ''$b'' 5]
        ex_events (ex_state (str ''!r'')))
     = Inr [[str ''$a'', str ''$b''], [str ''$c'', str ''$d''], [str ''$a'', str ''$b'']]
   \<and> map_sum id room_ids_distinct
     (get_room_vars ex_hs (str ''!r'') (str ''@bob'')
        [ex_notif ''!r'' ''$b'' 2, ex_notif ''!r'' ''$d'' 4, ex_notif ''!r'' ''$b'' 5]
        ex_events (ex_state (str ''!r'')))
     = Inr False"
  by code_simp

text \<open>
  Claim C1, amended. Within every single run of the room view model no two message
  groups share an event id, provided the message list built for each notification has
  no repeated event id (the same id may still occur in two different runs). And when a
  message of the incoming list is not historical and its id occurs in the previous run
  (whose ids are distinct), the merged run keeps distinct ids, still holds that id, and
  every entry with that id is not historical.
\<close>

theorem runs_have_distinct_ids:
  "(get_room_vars h room_id user_id notifs notif_events room_state_ids = Inr rv
      \<and> (\<forall>n\<in>set notifs. \<forall>ev nv. notif_events (pa_event_id n) = Some ev
            \<longrightarrow> get_notif_vars h n user_id ev room_state_ids = Inr nv
            \<longrightarrow> distinct (map mv_id (nv_messages nv)))
    \<longrightarrow> (\<forall>run\<in>set (rv_notifs rv). distinct (map mv_id (nv_messages run))))
   \<and> (distinct (map mv_id prev) \<and> m \<in> set nxt \<and> mv_id m \<in> mv_id ` set prev
        \<and> \<not> mv_is_historical m
    \<longrightarrow> distinct (map mv_id (fst (merge_loop prev nxt False)))
      \<and> mv_id m \<in> mv_id ` set (fst (merge_loop prev nxt False))
      \<and> (\<forall>e\<in>set (fst (merge_loop prev nxt False)).
            mv_id e = mv_id m \<longrightarrow> \<not> mv_is_historical e))"
proof (intro conjI impI)
  assume a: "get_room_vars h room_id user_id notifs notif_events room_state_ids = Inr rv
      \<and> (\<forall>n\<in>set notifs. \<forall>ev nv. notif_events (pa_event_id n) = Some ev
            \<longrightarrow> get_notif_vars h n user_id ev room_state_ids = Inr nv
            \<longrightarrow> distinct (map mv_id (nv_messages nv)))"
  then have a1: "get_room_vars h room_id user_id notifs notif_events room_state_ids = Inr rv"
    and a2: "\<forall>n\<in>set notifs. \<forall>ev nv. notif_events (pa_event_id n) = Some ev
            \<longrightarrow> get_notif_vars h n user_id ev room_state_ids = Inr nv
            \<longrightarrow> distinct (map mv_id (nv_messages nv))"
    by blast+
  from a1 have "rv_notifs rv = [] \<or>
      room_notifs_loop h user_id notif_events room_state_ids notifs [] = Inr (rv_notifs rv)"
    by (auto simp: get_room_vars_def bind_err_Inr_iff Let_def split: if_splits)
  then show "\<forall>run\<in>set (rv_notifs rv). distinct (map mv_id (nv_messages run))"
  proof
    assume "rv_notifs rv = []"
    then show ?thesis by simp
  next
    assume l: "room_notifs_loop h user_id notif_events room_state_ids notifs [] = Inr (rv_notifs rv)"
    have e: "\<forall>run\<in>set ([]::notif_vars list). distinct (map mv_id (nv_messages run))" by simp
    show ?thesis by (rule room_notifs_loop_distinct[OF l e a2])
  qed
next
  assume b: "distinct (map mv_id prev) \<and> m \<in> set nxt \<and> mv_id m \<in> mv_id ` set prev
        \<and> \<not> mv_is_historical m"
  then have b1: "distinct (map mv_id prev)" and b2: "m \<in> set nxt"
    and b3: "mv_id m \<in> mv_id ` set prev" and b4: "\<not> mv_is_historical m"
    by blast+
  show "distinct (map mv_id (fst (merge_loop prev nxt False)))"
    using b1 by (rule merge_loop_distinct)
  show "mv_id m \<in> mv_id ` set (fst (merge_loop prev nxt False))"
    using b3 by (rule merge_loop_ids_kept)
  show "\<forall>e\<in>set (fst (merge_loop prev nxt False)).
            mv_id e = mv_id m \<longrightarrow> \<not> mv_is_historical e"
    using b1 b2 b3 b4 by (rule merge_loop_trigger_flag)
qed

theorem runs_have_distinct_ids_witness:
  "(\<exists>rv. get_room_vars ex_hs (str ''!r'') (str ''@bob'')
            [ex_notif ''!r'' ''$b'' 2, ex_notif ''!r'' ''$c'' 3] ex_events (ex_state (str ''!r''))
          = Inr rv
        \<and> list_all (\<lambda>run. distinct (map mv_id (nv_messages run))) (rv_notifs rv))
   \<and> distinct (map mv_id (fst (merge_loop [ex_mv ''$a'' True, ex_mv ''$b'' True]
                                  [ex_mv ''$b'' False, ex_mv ''$c'' True] False)))
   \<and> \<not> list_ex (\<lambda>e. mv_id e = str ''$b'' \<and> mv_is_historical e)
          (fst (merge_loop [ex_mv ''$a'' True, ex_mv ''$b'' True]
                  [ex_mv ''$b'' False, ex_mv ''$c'' True] False))"
proof -
  let ?notifs = "[ex_notif ''!r'' ''$b'' 2, ex_notif ''!r'' ''$c'' 3]"
  let ?st = "ex_state (str ''!r'')"
  have "\<not> isl (get_room_vars ex_hs (str ''!r'') (str ''@bob'') ?notifs ex_events ?st)"
    by code_simp
  then obtain rv where rv:
    "get_room_vars ex_hs (str ''!r'') (str ''@bob'') ?notifs ex_events ?st = Inr rv"
    using not_isl_Inr by blast
  have evb: "ex_events (str ''$b'') = Some (ex_message ''$b'' 2)"
    and evc: "ex_events (str ''$c'') = Some (ex_message ''$c'' 3)"
    by (simp_all add: ex_events_def ex_timeline_def ex_message_def ex_sticker_def
        ex_member_def str_def)
  have db: "map_sum id (distinct \<circ> map mv_id \<circ> nv_messages)
              (get_notif_vars ex_hs (ex_notif ''!r'' ''$b'' 2) (str ''@bob'')
                 (ex_message ''$b'' 2) ?st) = Inr True"
    and dc: "map_sum id (distinct \<circ> map mv_id \<circ> nv_messages)
              (get_notif_vars ex_hs (ex_notif ''!r'' ''$c'' 3) (str ''@bob'')
                 (ex_message ''$c'' 3) ?st) = Inr True"
    by code_simp+
  have pb: "pa_event_id (ex_notif ''!r'' ''$b'' 2) = str ''$b''"
    and pc: "pa_event_id (ex_notif ''!r'' ''$c'' 3) = str ''$c''"
    by (simp_all add: ex_notif_def)
  have hyp: "\<forall>n\<in>set ?notifs. \<forall>ev nv. ex_events (pa_event_id n) = Some ev
            \<longrightarrow> get_notif_vars ex_hs n (str ''@bob'') ev ?st = Inr nv
            \<longrightarrow> distinct (map mv_id (nv_messages nv))"
    using evb evc db dc pb pc by auto
  have m1: "distinct (map mv_id [ex_mv ''$a'' True, ex_mv ''$b'' True])"
    and m2: "ex_mv ''$b'' False \<in> set [ex_mv ''$b'' False, ex_mv ''$c'' True]"
    and m3: "mv_id (ex_mv ''$b'' False) \<in> mv_id ` set [ex_mv ''$a'' True, ex_mv ''$b'' True]"
    and m4: "\<not> mv_is_historical (ex_mv ''$b'' False)"
    and m5: "mv_id (ex_mv ''$b'' False) = str ''$b''"
    by (simp_all add: ex_mv_def str_def)
  note t = runs_have_distinct_ids[of ex_hs "str ''!r''" "str ''@bob''" ?notifs ex_events ?st rv
      "[ex_mv ''$a'' True, ex_mv ''$b'' True]" "ex_mv ''$b'' False"
      "[ex_mv ''$b'' False, ex_mv ''$c'' True]"]
  have r1: "\<forall>run\<in>set (rv_notifs rv). distinct (map mv_id (nv_messages run))"
    by (rule mp[OF t[THEN conjunct1]], intro conjI, rule rv, rule hyp)
  have r2: "distinct (map mv_id (fst (merge_loop [ex_mv ''$a'' True, ex_mv ''$b'' True]
                                  [ex_mv ''$b'' False, ex_mv ''$c'' True] False)))
      \<and> mv_id (ex_mv ''$b'' False) \<in> mv_id ` set (fst (merge_loop
            [ex_mv ''$a'' True, ex_mv ''$b'' True] [ex_mv ''$b'' False, ex_mv ''$c'' True] False))
      \<and> (\<forall>e\<in>set (fst (merge_loop [ex_mv ''$a'' True, ex_mv ''$b'' True]
                                  [ex_mv ''$b'' False, ex_mv ''$c'' True] False)).
            mv_id e = mv_id (ex_mv ''$b'' False) \<longrightarrow> \<not> mv_is_historical e)"
    by (rule mp[OF t[THEN conjunct2]], intro conjI, rule m1, rule m2, rule m3, rule m4)
  have r3: "\<not> list_ex (\<lambda>e. mv_id e = str ''$b'' \<and> mv_is_historical e)
          (fst (merge_loop [ex_mv ''$a'' True, ex_mv ''$b'' True]
                  [ex_mv ''$b'' False, ex_mv ''$c'' True] False))"
    using r2[THEN conjunct2, THEN conjunct2] unfolding list_ex_iff m5 by blast
  have r4: "list_all (\<lambda>run. distinct (map mv_id (nv_messages run))) (rv_notifs rv)"
    using r1 unfolding list_all_iff .
  show ?thesis using rv r4 r2[THEN conjunct1] r3 by blast
qed

end
